theory Spec2Isabelle
  imports Complex_Main "HOL-Library.Log_Nat"
begin

section \<open>Numbers\<close>

text \<open>
  The calculator works on JavaScript numbers, which are IEEE 754 doubles. The file has
  two models of them.

  In the first a finite number is an exact rational (\<^typ>\<open>rat\<close>): rounding, overflow
  to an infinity and the sign of zero are outside of it. \<open>compute\<close> and \<open>distribute\<close>
  are the calculator in this exact arithmetic. The one place where the source tests for
  \<open>NaN\<close>, the \<^verbatim>\<open>parseFloat(value) || 0\<close> of the input form, is modelled on \<open>jsnum\<close>,
  a finite number or \<open>NaN\<close>.

  The second, \<open>double\<close> below, has \<open>NaN\<close>, the two infinities, rounding to the nearest
  double and overflow; \<open>compute64\<close> is the calculator in that arithmetic. It is used
  where a property of the calculator depends on rounding or on overflow.
\<close>

datatype jsnum = NaN | Fin rat

section \<open>Data model (types.ts)\<close>

text \<open>
  \<^verbatim>\<open>interface CalculatorInputs\<close>: twelve fields of type \<^verbatim>\<open>number\<close>. The record is
  polymorphic in the number type: the form state holds \<^typ>\<open>jsnum\<close> fields, the
  calculator reads \<^typ>\<open>rat\<close> fields.
\<close>

record 'n CalculatorInputs =
  totalOrders :: 'n
  cancelledOverCall :: 'n
  rtoPercentage :: 'n
  sellingPrice :: 'n
  productCost :: 'n
  adCostPerOrder :: 'n
  adGstPercentage :: 'n
  shippingCost :: 'n
  rtoShippingCost :: 'n
  productDamageRtoPercentage :: 'n
  packingCost :: 'n
  miscellaneous :: 'n

text \<open>
  \<^verbatim>\<open>interface CalculatedResults\<close>: fourteen fields of type \<^verbatim>\<open>number\<close>, polymorphic
  in the number type as well.
\<close>

record 'n CalculatedResults =
  orderToBeShipped :: 'n
  rtoCount :: 'n
  deliveredOrders :: 'n
  totalRevenue :: 'n
  totalProductCost :: 'n
  totalAdCost :: 'n
  totalShippingCost :: 'n
  totalRtoShipping :: 'n
  totalDamageLoss :: 'n
  totalPackingCost :: 'n
  totalMiscellaneous :: 'n
  totalExpenses :: 'n
  netProfit :: 'n
  profitMargin :: 'n

section \<open>The calculator (App.tsx, lines 64-98)\<close>

text \<open>
  The body of the \<^verbatim>\<open>results\<close> memo, a function of \<^verbatim>\<open>inputs\<close>; the specification
  calls it \<open>compute\<close>. \<^verbatim>\<open>Math.max\<close> is \<^const>\<open>max\<close>. The constants are bound in the
  order of the source, each under the name it has there (the primed names are the
  source's names without the prime, which are the selectors of the result record here).
\<close>

definition compute :: "rat CalculatorInputs \<Rightarrow> rat CalculatedResults" where
  "compute inputs =
    (let orderToBeShipped' = max 0 (totalOrders inputs - cancelledOverCall inputs);
         rtoCount' = orderToBeShipped' * (rtoPercentage inputs / 100);
         deliveredOrders' = max 0 (orderToBeShipped' - rtoCount');
         totalRevenue' = deliveredOrders' * sellingPrice inputs;
         totalProductCost' = deliveredOrders' * productCost inputs;
         totalDamageLoss' =
           rtoCount' * productCost inputs * (productDamageRtoPercentage inputs / 100);
         totalAdCost' =
           totalOrders inputs * adCostPerOrder inputs * (1 + adGstPercentage inputs / 100);
         totalShippingCost' = orderToBeShipped' * shippingCost inputs;
         totalRtoShipping' = rtoCount' * rtoShippingCost inputs;
         totalPackingCost' = orderToBeShipped' * packingCost inputs;
         totalMiscellaneous' = miscellaneous inputs;
         totalExpenses' =
           totalProductCost' + totalAdCost' + totalShippingCost' +
           totalRtoShipping' + totalDamageLoss' + totalPackingCost' + totalMiscellaneous';
         netProfit' = totalRevenue' - totalExpenses';
         profitMargin' =
           (if totalRevenue' > 0 then (netProfit' / totalRevenue') * 100 else 0)
     in \<lparr> orderToBeShipped = orderToBeShipped', rtoCount = rtoCount',
          deliveredOrders = deliveredOrders', totalRevenue = totalRevenue',
          totalProductCost = totalProductCost', totalAdCost = totalAdCost',
          totalShippingCost = totalShippingCost', totalRtoShipping = totalRtoShipping',
          totalDamageLoss = totalDamageLoss', totalPackingCost = totalPackingCost',
          totalMiscellaneous = totalMiscellaneous',
          totalExpenses = totalExpenses', netProfit = netProfit',
          profitMargin = profitMargin' \<rparr>)"

section \<open>The distribution (App.tsx, lines 29 and 100-118)\<close>

definition COLORS :: "string list" where
  "COLORS = [''#4F46E5'', ''#EF4444'', ''#F59E0B'', ''#10B981'', ''#6366F1'', ''#8B5CF6'',
     ''#EC4899'']"

text \<open>
  An element of the local list \<^verbatim>\<open>data\<close> has a name and a value; an element of the
  list that the \<^verbatim>\<open>chartData\<close> memo returns spreads such an element and adds three
  fields. (\<open>value\<close> is a keyword of Isabelle, hence the prime.)
\<close>

record item =
  name :: string
  value' :: rat

record ChartDatum = item +
  color :: string
  percentageOfRevenue :: rat
  percentageOfExpenses :: rat

definition data :: "rat CalculatedResults \<Rightarrow> item list" where
  "data results =
     [ \<lparr> name = ''Product'', value' = totalProductCost results \<rparr>,
       \<lparr> name = ''Ads'', value' = totalAdCost results \<rparr>,
       \<lparr> name = ''Forward Shipping'', value' = totalShippingCost results \<rparr>,
       \<lparr> name = ''RTO Shipping'', value' = totalRtoShipping results \<rparr>,
       \<lparr> name = ''Packing'', value' = totalPackingCost results \<rparr>,
       \<lparr> name = ''RTO Loss'', value' = totalDamageLoss results \<rparr>,
       \<lparr> name = ''Misc'', value' = totalMiscellaneous results \<rparr> ]"

text \<open>
  The body of the \<^verbatim>\<open>chartData\<close> memo, a function of \<^verbatim>\<open>results\<close>; the specification
  calls it \<open>distribute\<close>. The callback of \<^verbatim>\<open>map\<close> gets the element and its index in
  the list it runs on, which is the filtered list: \<^const>\<open>enumerate\<close> pairs each element
  with that index. \<^verbatim>\<open>COLORS[index % COLORS.length]\<close> reads inside the palette, since the
  remainder is below its length.
\<close>

definition distribute :: "rat CalculatedResults \<Rightarrow> ChartDatum list" where
  "distribute results =
     map (\<lambda>(index, item).
            \<lparr> name = name item, value' = value' item,
              color = COLORS ! (index mod length COLORS),
              percentageOfRevenue =
                (if totalRevenue results > 0
                 then (value' item / totalRevenue results) * 100 else 0),
              percentageOfExpenses =
                (if totalExpenses results > 0
                 then (value' item / totalExpenses results) * 100 else 0) \<rparr>)
         (enumerate 0 (filter (\<lambda>item. value' item > 0) (data results)))"

section \<open>The input form (App.tsx, lines 40-53, 120-132, 209-251 and 411-452)\<close>

text \<open>\<^verbatim>\<open>keyof CalculatorInputs\<close>: the twelve field names.\<close>

datatype field =
  TotalOrders | CancelledOverCall | RtoPercentage | SellingPrice | ProductCost
  | AdCostPerOrder | AdGstPercentage | ShippingCost | RtoShippingCost
  | ProductDamageRtoPercentage | PackingCost | Miscellaneous

text \<open>\<^verbatim>\<open>inputs[field]\<close> and \<^verbatim>\<open>{ ...prev, [field]: numValue }\<close>.\<close>

fun get_field :: "field \<Rightarrow> 'n CalculatorInputs \<Rightarrow> 'n" where
  "get_field TotalOrders i = totalOrders i"
| "get_field CancelledOverCall i = cancelledOverCall i"
| "get_field RtoPercentage i = rtoPercentage i"
| "get_field SellingPrice i = sellingPrice i"
| "get_field ProductCost i = productCost i"
| "get_field AdCostPerOrder i = adCostPerOrder i"
| "get_field AdGstPercentage i = adGstPercentage i"
| "get_field ShippingCost i = shippingCost i"
| "get_field RtoShippingCost i = rtoShippingCost i"
| "get_field ProductDamageRtoPercentage i = productDamageRtoPercentage i"
| "get_field PackingCost i = packingCost i"
| "get_field Miscellaneous i = miscellaneous i"

fun set_field :: "field \<Rightarrow> 'n \<Rightarrow> 'n CalculatorInputs \<Rightarrow> 'n CalculatorInputs" where
  "set_field TotalOrders v i = i\<lparr>totalOrders := v\<rparr>"
| "set_field CancelledOverCall v i = i\<lparr>cancelledOverCall := v\<rparr>"
| "set_field RtoPercentage v i = i\<lparr>rtoPercentage := v\<rparr>"
| "set_field SellingPrice v i = i\<lparr>sellingPrice := v\<rparr>"
| "set_field ProductCost v i = i\<lparr>productCost := v\<rparr>"
| "set_field AdCostPerOrder v i = i\<lparr>adCostPerOrder := v\<rparr>"
| "set_field AdGstPercentage v i = i\<lparr>adGstPercentage := v\<rparr>"
| "set_field ShippingCost v i = i\<lparr>shippingCost := v\<rparr>"
| "set_field RtoShippingCost v i = i\<lparr>rtoShippingCost := v\<rparr>"
| "set_field ProductDamageRtoPercentage v i = i\<lparr>productDamageRtoPercentage := v\<rparr>"
| "set_field PackingCost v i = i\<lparr>packingCost := v\<rparr>"
| "set_field Miscellaneous v i = i\<lparr>miscellaneous := v\<rparr>"

text \<open>
  Arithmetic on numbers that may be \<open>NaN\<close>, as far as the form uses it: \<^verbatim>\<open>+\<close>,
  \<^verbatim>\<open>-\<close> and \<^verbatim>\<open>Math.max\<close> return \<open>NaN\<close> as soon as an argument is \<open>NaN\<close>.
\<close>

fun js_add :: "jsnum \<Rightarrow> jsnum \<Rightarrow> jsnum" where
  "js_add (Fin a) (Fin b) = Fin (a + b)"
| "js_add _ _ = NaN"

fun js_sub :: "jsnum \<Rightarrow> jsnum \<Rightarrow> jsnum" where
  "js_sub (Fin a) (Fin b) = Fin (a - b)"
| "js_sub _ _ = NaN"

fun Math_max :: "jsnum \<Rightarrow> jsnum \<Rightarrow> jsnum" where
  "Math_max (Fin a) (Fin b) = Fin (max a b)"
| "Math_max _ _ = NaN"

text \<open>
  \<^verbatim>\<open>x || 0\<close> on a number: the falsy numbers are \<open>NaN\<close> and zero, and for them the
  result is the right operand.
\<close>

fun falsy :: "jsnum \<Rightarrow> bool" where
  "falsy NaN = True"
| "falsy (Fin x) = (x = 0)"

definition or_zero :: "jsnum \<Rightarrow> jsnum" where
  "or_zero x = (if falsy x then Fin 0 else x)"

text \<open>\<^verbatim>\<open>value: string | number\<close>.\<close>

datatype jsvalue = Str string | Number jsnum

text \<open>
  \<^verbatim>\<open>handleInputChange\<close>. \<^verbatim>\<open>parseFloat\<close> is a function of the language, not of this
  program: the model takes it as a parameter, any function from strings to numbers.
  The state setter gets the previous record \<^verbatim>\<open>prev\<close> and returns the next one.
\<close>

definition handleInputChange ::
  "(string \<Rightarrow> jsnum) \<Rightarrow> field \<Rightarrow> jsvalue \<Rightarrow> jsnum CalculatorInputs \<Rightarrow> jsnum CalculatorInputs"
where
  "handleInputChange parseFloat field value prev =
     (let numValue = (case value of Str s \<Rightarrow> or_zero (parseFloat s) | Number n \<Rightarrow> n)
      in set_field field numValue prev)"

text \<open>
  The initial state of the form, which is also the record that \<^verbatim>\<open>resetInputs\<close>
  stores.
\<close>

definition defaultInputs :: "jsnum CalculatorInputs" where
  "defaultInputs =
     \<lparr> totalOrders = Fin 10, cancelledOverCall = Fin 0, rtoPercentage = Fin 10,
       sellingPrice = Fin 600, productCost = Fin 100, adCostPerOrder = Fin 100,
       adGstPercentage = Fin 18, shippingCost = Fin 50, rtoShippingCost = Fin 72,
       productDamageRtoPercentage = Fin 0, packingCost = Fin 10,
       miscellaneous = Fin 5 \<rparr>"

definition resetInputs :: "jsnum CalculatorInputs \<Rightarrow> jsnum CalculatorInputs" where
  "resetInputs prev = defaultInputs"

text \<open>
  What the user can do to the form. \<^verbatim>\<open>CounterInput\<close>, bound to \<^verbatim>\<open>totalOrders\<close>, has
  a minus button, which calls the handler with \<^verbatim>\<open>Math.max(0, value - 1)\<close>, and a plus
  button, which calls it with \<^verbatim>\<open>value + 1\<close>. An \<^verbatim>\<open>InputGroup\<close> calls the handler
  with the text of its box. The reset button calls \<^verbatim>\<open>resetInputs\<close>. The form has no
  text box for \<^verbatim>\<open>totalOrders\<close>; the model allows \<open>Change TotalOrders\<close> all the same,
  which only adds reachable states.
\<close>

datatype event = Minus | Plus | Change field string | Reset

fun step :: "(string \<Rightarrow> jsnum) \<Rightarrow> event \<Rightarrow> jsnum CalculatorInputs \<Rightarrow> jsnum CalculatorInputs"
where
  "step parseFloat Minus inputs =
     handleInputChange parseFloat TotalOrders
       (Number (Math_max (Fin 0) (js_sub (totalOrders inputs) (Fin 1)))) inputs"
| "step parseFloat Plus inputs =
     handleInputChange parseFloat TotalOrders
       (Number (js_add (totalOrders inputs) (Fin 1))) inputs"
| "step parseFloat (Change field text) inputs =
     handleInputChange parseFloat field (Str text) inputs"
| "step parseFloat Reset inputs = resetInputs inputs"

text \<open>The state of the form after a sequence of events, from the initial state.\<close>

definition run :: "(string \<Rightarrow> jsnum) \<Rightarrow> event list \<Rightarrow> jsnum CalculatorInputs" where
  "run parseFloat events = foldl (\<lambda>inputs e. step parseFloat e inputs) defaultInputs events"

section \<open>The calculator in double arithmetic\<close>

subsection \<open>Rounding to the nearest double\<close>

text \<open>
  Rounding a rational to the nearest integer, a tie going to the even one.
\<close>

definition round_even :: "rat \<Rightarrow> int" where
  "round_even y =
     (let f = \<lfloor>y\<rfloor>; d = y - of_int f
      in if d < 1 / 2 then f else if 1 / 2 < d then f + 1
         else if even f then f else f + 1)"

text \<open>
  The binary exponent of a positive rational \<open>a\<close>: the \<open>e\<close> with
  \<open>2 powi e \<le> a < 2 powi (e + 1)\<close>, computed from the bit length of an integer
  (\<^const>\<open>floorlog\<close>).
\<close>

definition expo :: "rat \<Rightarrow> int" where
  "expo a =
     (if 1 \<le> a then int (floorlog 2 (nat \<lfloor>a\<rfloor>)) - 1
      else - int (floorlog 2 (nat (\<lceil>1 / a\<rceil> - 1))))"

text \<open>
  A double has 53 significant bits and its exponent is at least -1022: around \<open>x\<close> the
  doubles are the integer multiples of \<open>quantum x\<close>, and below \<open>2 powi (- 1022)\<close> (the
  subnormal range) the spacing stays \<open>2 powi (- 1074)\<close>.
\<close>

definition binade :: "rat \<Rightarrow> int" where
  "binade x = max (expo \<bar>x\<bar>) (- 1022)"

definition quantum :: "rat \<Rightarrow> rat" where
  "quantum x = 2 powi (binade x - 52)"

definition round_fin :: "rat \<Rightarrow> rat" where
  "round_fin x = of_int (round_even (x / quantum x)) * quantum x"

text \<open>
  A JavaScript number: \<open>NaN\<close>, an infinity or a finite number. The two zeros are one
  value here; the calculator never divides by a zero, the only operation that tells
  them apart.
\<close>

datatype double = NotANumber | NegInfinity | Finite rat | Infinity

text \<open>
  The result of an operation whose exact value is \<open>x\<close>: the nearest double, and an
  infinity when that is \<open>2 ^ 1024\<close> or more in size.
\<close>

definition round64 :: "rat \<Rightarrow> double" where
  "round64 x =
     (let r = round_fin x
      in if 2 ^ 1024 \<le> r then Infinity
         else if r \<le> - (2 ^ 1024) then NegInfinity
         else Finite r)"

subsection \<open>The operations the calculator uses\<close>

fun fl_neg :: "double \<Rightarrow> double" where
  "fl_neg NotANumber = NotANumber"
| "fl_neg NegInfinity = Infinity"
| "fl_neg (Finite a) = Finite (- a)"
| "fl_neg Infinity = NegInfinity"

fun fl_add :: "double \<Rightarrow> double \<Rightarrow> double" where
  "fl_add NotANumber y = NotANumber"
| "fl_add x NotANumber = NotANumber"
| "fl_add (Finite a) (Finite b) = round64 (a + b)"
| "fl_add Infinity NegInfinity = NotANumber"
| "fl_add NegInfinity Infinity = NotANumber"
| "fl_add Infinity y = Infinity"
| "fl_add x Infinity = Infinity"
| "fl_add NegInfinity y = NegInfinity"
| "fl_add x NegInfinity = NegInfinity"

definition fl_sub :: "double \<Rightarrow> double \<Rightarrow> double" where
  "fl_sub x y = fl_add x (fl_neg y)"

fun fl_mul :: "double \<Rightarrow> double \<Rightarrow> double" where
  "fl_mul NotANumber y = NotANumber"
| "fl_mul x NotANumber = NotANumber"
| "fl_mul (Finite a) (Finite b) = round64 (a * b)"
| "fl_mul (Finite a) y = (if a = 0 then NotANumber else if 0 < a then y else fl_neg y)"
| "fl_mul x (Finite b) = (if b = 0 then NotANumber else if 0 < b then x else fl_neg x)"
| "fl_mul Infinity y = y"
| "fl_mul NegInfinity y = fl_neg y"

text \<open>
  Division. A finite number over zero is an infinity whose sign depends on the sign of
  the zero, which the model does not have; it takes the zero as positive there. The
  calculator divides by 100 and by numbers it has tested to be positive only.
\<close>

fun fl_div :: "double \<Rightarrow> double \<Rightarrow> double" where
  "fl_div NotANumber y = NotANumber"
| "fl_div x NotANumber = NotANumber"
| "fl_div (Finite a) (Finite b) =
     (if b = 0 then (if a = 0 then NotANumber else if 0 < a then Infinity else NegInfinity)
      else round64 (a / b))"
| "fl_div (Finite a) y = Finite 0"
| "fl_div x (Finite b) = (if 0 \<le> b then x else fl_neg x)"
| "fl_div x y = NotANumber"

text \<open>\<^verbatim>\<open>Math.max\<close> of two numbers: \<open>NaN\<close> as soon as one of them is.\<close>

fun fl_max :: "double \<Rightarrow> double \<Rightarrow> double" where
  "fl_max NotANumber y = NotANumber"
| "fl_max x NotANumber = NotANumber"
| "fl_max Infinity y = Infinity"
| "fl_max x Infinity = Infinity"
| "fl_max NegInfinity y = y"
| "fl_max x NegInfinity = x"
| "fl_max (Finite a) (Finite b) = Finite (max a b)"

text \<open>
  The comparisons \<^verbatim>\<open><\<close> and \<^verbatim>\<open><=\<close>: false as soon as an operand is \<open>NaN\<close>.
  \<^verbatim>\<open>x > y\<close> is \<open>fl_less y x\<close> and \<^verbatim>\<open>x >= y\<close> is \<open>fl_le y x\<close>.
\<close>

fun fl_less :: "double \<Rightarrow> double \<Rightarrow> bool" where
  "fl_less NotANumber y = False"
| "fl_less x NotANumber = False"
| "fl_less (Finite a) (Finite b) = (a < b)"
| "fl_less x NegInfinity = False"
| "fl_less Infinity y = False"
| "fl_less NegInfinity y = True"
| "fl_less x Infinity = True"

fun fl_le :: "double \<Rightarrow> double \<Rightarrow> bool" where
  "fl_le NotANumber y = False"
| "fl_le x NotANumber = False"
| "fl_le (Finite a) (Finite b) = (a \<le> b)"
| "fl_le NegInfinity y = True"
| "fl_le x Infinity = True"
| "fl_le x NegInfinity = False"
| "fl_le Infinity y = False"

text \<open>A finite double: a rational that rounding leaves as it is.\<close>

fun finite_double :: "double \<Rightarrow> bool" where
  "finite_double (Finite x) = (round64 x = Finite x)"
| "finite_double x = False"

subsection \<open>The calculator (App.tsx, lines 64-98)\<close>

text \<open>
  The body of the \<^verbatim>\<open>results\<close> memo once more, every operation now that of the
  doubles: the same constants in the same order, products and sums associated to the
  left as the source's are.
\<close>

definition compute64 :: "double CalculatorInputs \<Rightarrow> double CalculatedResults" where
  "compute64 inputs =
    (let orderToBeShipped' =
           fl_max (Finite 0) (fl_sub (totalOrders inputs) (cancelledOverCall inputs));
         rtoCount' = fl_mul orderToBeShipped' (fl_div (rtoPercentage inputs) (Finite 100));
         deliveredOrders' = fl_max (Finite 0) (fl_sub orderToBeShipped' rtoCount');
         totalRevenue' = fl_mul deliveredOrders' (sellingPrice inputs);
         totalProductCost' = fl_mul deliveredOrders' (productCost inputs);
         totalDamageLoss' =
           fl_mul (fl_mul rtoCount' (productCost inputs))
             (fl_div (productDamageRtoPercentage inputs) (Finite 100));
         totalAdCost' =
           fl_mul (fl_mul (totalOrders inputs) (adCostPerOrder inputs))
             (fl_add (Finite 1) (fl_div (adGstPercentage inputs) (Finite 100)));
         totalShippingCost' = fl_mul orderToBeShipped' (shippingCost inputs);
         totalRtoShipping' = fl_mul rtoCount' (rtoShippingCost inputs);
         totalPackingCost' = fl_mul orderToBeShipped' (packingCost inputs);
         totalMiscellaneous' = miscellaneous inputs;
         totalExpenses' =
           fl_add (fl_add (fl_add (fl_add (fl_add (fl_add
             totalProductCost' totalAdCost') totalShippingCost')
             totalRtoShipping') totalDamageLoss') totalPackingCost') totalMiscellaneous';
         netProfit' = fl_sub totalRevenue' totalExpenses';
         profitMargin' =
           (if fl_less (Finite 0) totalRevenue'
            then fl_mul (fl_div netProfit' totalRevenue') (Finite 100) else Finite 0)
     in \<lparr> orderToBeShipped = orderToBeShipped', rtoCount = rtoCount',
          deliveredOrders = deliveredOrders', totalRevenue = totalRevenue',
          totalProductCost = totalProductCost', totalAdCost = totalAdCost',
          totalShippingCost = totalShippingCost', totalRtoShipping = totalRtoShipping',
          totalDamageLoss = totalDamageLoss', totalPackingCost = totalPackingCost',
          totalMiscellaneous = totalMiscellaneous',
          totalExpenses = totalExpenses', netProfit = netProfit',
          profitMargin = profitMargin' \<rparr>)"

section \<open>Auxiliary facts\<close>

text \<open>Mapping over an enumerated list, when the index does not matter.\<close>

lemma map_enumerate_proj:
  "(\<And>i x. g (f i x) = h x) \<Longrightarrow> map g (map (\<lambda>(i, x). f i x) (enumerate n xs)) = map h xs"
  by (induction xs arbitrary: n) simp_all


text \<open>Reading a field after a write.\<close>

lemma get_set_field: "get_field f (set_field g v i) = (if f = g then v else get_field f i)"
  by (cases f; cases g) simp_all

lemma or_zero_not_NaN: "or_zero x \<noteq> NaN"
  by (cases x) (simp_all add: or_zero_def)

text \<open>No field is \<open>NaN\<close>: the invariant of the form state.\<close>

lemma set_field_not_NaN:
  "\<forall>f. get_field f i \<noteq> NaN \<Longrightarrow> v \<noteq> NaN \<Longrightarrow> \<forall>f. get_field f (set_field g v i) \<noteq> NaN"
  by (simp add: get_set_field del: set_field.simps)

lemma defaultInputs_not_NaN: "\<forall>f. get_field f defaultInputs \<noteq> NaN"
proof
  fix f show "get_field f defaultInputs \<noteq> NaN"
    by (cases f) (simp_all add: defaultInputs_def)
qed

lemma step_not_NaN:
  assumes inv: "\<forall>f. get_field f i \<noteq> NaN"
  shows "\<forall>f. get_field f (step parseFloat e i) \<noteq> NaN"
proof (cases e)
  case Minus
  from inv have "get_field TotalOrders i \<noteq> NaN" by blast
  then obtain x where "totalOrders i = Fin x" by (cases "totalOrders i") simp_all
  then show ?thesis using inv Minus
    by (simp add: handleInputChange_def set_field_not_NaN del: set_field.simps)
next
  case Plus
  from inv have "get_field TotalOrders i \<noteq> NaN" by blast
  then obtain x where "totalOrders i = Fin x" by (cases "totalOrders i") simp_all
  then show ?thesis using inv Plus
    by (simp add: handleInputChange_def set_field_not_NaN del: set_field.simps)
next
  case (Change g s)
  then show ?thesis using inv
    by (simp add: handleInputChange_def set_field_not_NaN or_zero_not_NaN
          del: set_field.simps)
next
  case Reset
  then show ?thesis using defaultInputs_not_NaN by (simp add: resetInputs_def)
qed

lemma foldl_step_not_NaN:
  "\<forall>f. get_field f i \<noteq> NaN \<Longrightarrow>
   \<forall>f. get_field f (foldl (\<lambda>inputs e. step parseFloat e inputs) i events) \<noteq> NaN"
proof (induction events arbitrary: i)
  case Nil
  then show ?case by simp
next
  case (Cons e es)
  from Cons.prems have "\<forall>f. get_field f (step parseFloat e i) \<noteq> NaN"
    by (rule step_not_NaN)
  then show ?case using Cons.IH by simp
qed

section \<open>Facts about rounding\<close>

text \<open>Rounding to the nearest integer.\<close>

lemma round_even_of_int: "round_even (of_int n) = n"
  by (simp add: round_even_def)

lemma round_even_lower: "of_int n \<le> y \<Longrightarrow> n \<le> round_even y"
  unfolding round_even_def Let_def by (auto simp: le_floor_iff) linarith+

lemma round_even_upper: "y \<le> of_int n \<Longrightarrow> round_even y \<le> n"
proof -
  assume le: "y \<le> of_int n"
  have fl: "\<lfloor>y\<rfloor> \<le> n" using le by (simp add: floor_le_iff) 
  show ?thesis
  proof (cases "\<lfloor>y\<rfloor> = n")
    case True
    then have "y - of_int \<lfloor>y\<rfloor> \<le> 0" using le by simp
    then show ?thesis using True by (simp add: round_even_def Let_def)
  next
    case False
    then have "\<lfloor>y\<rfloor> + 1 \<le> n" using fl by simp
    then show ?thesis by (simp add: round_even_def Let_def)
  qed
qed


lemma floorlog2_bounds:
  assumes "0 < n"
  shows "(2::rat) ^ (floorlog 2 n - 1) \<le> of_nat n" and "of_nat n + 1 \<le> (2::rat) ^ floorlog 2 n"
proof -
  from floorlog_bounds [of n 2] assms
  have b: "2 ^ (floorlog 2 n - 1) \<le> n" "n < 2 ^ floorlog 2 n" by simp_all
  from b(1) have "of_nat (2 ^ (floorlog 2 n - 1)) \<le> (of_nat n :: rat)"
    by (simp only: of_nat_le_iff)
  then show "(2::rat) ^ (floorlog 2 n - 1) \<le> of_nat n" by simp
  from b(2) have "n + 1 \<le> 2 ^ floorlog 2 n" by simp
  then have "of_nat (n + 1) \<le> (of_nat (2 ^ floorlog 2 n) :: rat)"
    by (simp only: of_nat_le_iff)
  then show "of_nat n + 1 \<le> (2::rat) ^ floorlog 2 n" by simp
qed

lemma floorlog2_pos: "0 < n \<Longrightarrow> 0 < floorlog 2 n"
  by (simp add: floorlog_def)

lemma expo_bounds:
  assumes "0 < a"
  shows "2 powi expo a \<le> a" and "a < 2 powi (expo a + 1)"
proof -
  show "2 powi expo a \<le> a"
  proof (cases "1 \<le> a")
    case True
    define n where "n = nat \<lfloor>a\<rfloor>"
    have n: "0 < n" "of_nat n \<le> a" using True by (simp_all add: n_def)
    have k: "0 < floorlog 2 n" using n by (simp add: floorlog2_pos)
    have "expo a = int (floorlog 2 n - 1)" using True k by (simp add: expo_def n_def)
    then have "2 powi expo a = (2::rat) ^ (floorlog 2 n - 1)" by simp
    also have "\<dots> \<le> of_nat n" by (rule floorlog2_bounds(1) [OF n(1)])
    finally show ?thesis using n by simp
  next
    case False
    define b where "b = 1 / a"
    define n where "n = nat (\<lceil>b\<rceil> - 1)"
    have b: "1 < b" using False assms by (simp add: b_def)
    then have c: "2 \<le> \<lceil>b\<rceil>" by linarith
    have n: "0 < n" "b \<le> of_nat n + 1" using c by (simp_all add: n_def) linarith?
    have "expo a = - int (floorlog 2 n)" using False by (simp add: expo_def n_def b_def)
    then have "2 powi expo a = 1 / (2::rat) ^ floorlog 2 n"
      by (simp add: power_int_minus field_simps)
    also have "\<dots> \<le> 1 / b"
      using floorlog2_bounds(2) [OF n(1)] n(2) b by (intro divide_left_mono) simp_all
    finally show ?thesis using assms by (simp add: b_def)
  qed
  show "a < 2 powi (expo a + 1)"
  proof (cases "1 \<le> a")
    case True
    define n where "n = nat \<lfloor>a\<rfloor>"
    have n: "0 < n" "a < of_nat n + 1" using True by (simp_all add: n_def) linarith?
    have k: "0 < floorlog 2 n" using n by (simp add: floorlog2_pos)
    have "expo a + 1 = int (floorlog 2 n)" using True k by (simp add: expo_def n_def)
    then have "2 powi (expo a + 1) = (2::rat) ^ floorlog 2 n" by simp
    then show ?thesis using floorlog2_bounds(2) [OF n(1)] n(2) by simp
  next
    case False
    define b where "b = 1 / a"
    define n where "n = nat (\<lceil>b\<rceil> - 1)"
    have b: "1 < b" using False assms by (simp add: b_def)
    then have c: "2 \<le> \<lceil>b\<rceil>" by linarith
    have n: "0 < n" "of_nat n < b" using c by (simp_all add: n_def) linarith?
    have k: "0 < floorlog 2 n" using n by (simp add: floorlog2_pos)
    have "expo a + 1 = - int (floorlog 2 n - 1)"
      using False k by (simp add: expo_def n_def b_def)
    then have "2 powi (expo a + 1) = 1 / (2::rat) ^ (floorlog 2 n - 1)"
      by (simp add: power_int_minus field_simps)
    moreover have "(2::rat) ^ (floorlog 2 n - 1) < b"
      using floorlog2_bounds(1) [OF n(1)] n(2) by linarith
    then have "1 / b < 1 / (2::rat) ^ (floorlog 2 n - 1)"
      using b by (intro divide_strict_left_mono) simp_all
    ultimately show ?thesis using assms by (simp add: b_def)
  qed
qed

lemma expo_unique:
  assumes "0 < a" and "2 powi e \<le> a" and "a < 2 powi (e + 1)"
  shows "expo a = e"
proof -
  have "(2::rat) powi e < 2 powi (expo a + 1)"
    using assms(2) expo_bounds(2) [OF assms(1)] by simp
  then have "e < expo a + 1"
    by (metis linorder_not_less one_le_numeral power_int_increasing)
  moreover have "(2::rat) powi expo a < 2 powi (e + 1)"
    using assms(3) expo_bounds(1) [OF assms(1)] by simp
  then have "expo a < e + 1"
    by (metis linorder_not_less one_le_numeral power_int_increasing)
  ultimately show ?thesis by simp
qed

lemma expo_mono:
  assumes "0 < a" and "a \<le> b"
  shows "expo a \<le> expo b"
proof -
  have "0 < b" using assms by simp
  then have "(2::rat) powi expo a < 2 powi (expo b + 1)"
    using expo_bounds(1) [OF assms(1)] expo_bounds(2) [of b] assms(2) by simp
  then have "expo a < expo b + 1"
    by (metis linorder_not_less one_le_numeral power_int_increasing)
  then show ?thesis by simp
qed

lemma round_even_mono:
  assumes "x \<le> y"
  shows "round_even x \<le> round_even y"
proof (cases "\<lfloor>x\<rfloor> = \<lfloor>y\<rfloor>")
  case True
  then show ?thesis using assms by (auto simp: round_even_def Let_def)
next
  case False
  then have "\<lfloor>x\<rfloor> + 1 \<le> \<lfloor>y\<rfloor>" using floor_mono [OF assms] by simp
  moreover have "round_even x \<le> \<lfloor>x\<rfloor> + 1" by (rule round_even_upper) linarith
  moreover have "\<lfloor>y\<rfloor> \<le> round_even y" by (rule round_even_lower) linarith
  ultimately show ?thesis by simp
qed

lemma quantum_pos: "0 < quantum x"
  by (simp add: quantum_def)

lemma round_fin_0: "round_fin 0 = 0"
  by (simp add: round_fin_def round_even_def)

lemma round_fin_le_multiple:
  assumes "x \<le> of_int n * quantum x"
  shows "round_fin x \<le> of_int n * quantum x"
proof -
  have "x / quantum x \<le> of_int n" using assms quantum_pos [of x] by (simp add: field_simps)
  then have "round_even (x / quantum x) \<le> n" by (rule round_even_upper)
  then have "(of_int (round_even (x / quantum x)) :: rat) \<le> of_int n" by simp
  then show ?thesis unfolding round_fin_def
    using quantum_pos [of x] by (intro mult_right_mono) simp_all
qed

lemma round_fin_ge_multiple:
  assumes "of_int n * quantum x \<le> x"
  shows "of_int n * quantum x \<le> round_fin x"
proof -
  have "of_int n \<le> x / quantum x" using assms quantum_pos [of x] by (simp add: field_simps)
  then have "n \<le> round_even (x / quantum x)" by (rule round_even_lower)
  then have "(of_int n :: rat) \<le> of_int (round_even (x / quantum x))" by simp
  then show ?thesis unfolding round_fin_def
    using quantum_pos [of x] by (intro mult_right_mono) simp_all
qed

lemma round_fin_nonneg: "0 \<le> x \<Longrightarrow> 0 \<le> round_fin x"
  using round_fin_ge_multiple [of 0 x] by simp

lemma round_fin_nonpos: "x \<le> 0 \<Longrightarrow> round_fin x \<le> 0"
  using round_fin_le_multiple [of x 0] by simp

lemma powi_split:
  assumes "k \<le> j"
  shows "(2::rat) powi j = of_int (2 ^ nat (j - k)) * 2 powi k"
proof -
  define m where "m = nat (j - k)"
  have j: "j = int m + k" using assms by (simp add: m_def)
  have "(2::rat) powi (int m + k) = 2 powi int m * 2 powi k" by (rule power_int_add) simp
  then have "(2::rat) powi j = of_int (2 ^ m) * 2 powi k" unfolding j by simp
  then show ?thesis unfolding m_def .
qed

lemma quantum_binade: "quantum x = 2 powi (binade x - 52)"
  by (simp add: quantum_def)

lemma below_next_binade:
  assumes "0 < x"
  shows "x < 2 powi (binade x + 1)"
proof -
  have "x < 2 powi (expo x + 1)" using assms by (rule expo_bounds)
  also have "\<dots> \<le> 2 powi (binade x + 1)"
    using assms by (intro power_int_increasing) (simp_all add: binade_def)
  finally show ?thesis .
qed

lemma round_fin_le_next_binade:
  assumes "0 < x"
  shows "round_fin x \<le> 2 powi (binade x + 1)"
proof -
  have eq: "(2::rat) powi (binade x + 1) = of_int (2 ^ nat 53) * quantum x"
    using powi_split [of "binade x - 52" "binade x + 1"] by (simp add: quantum_binade)
  show ?thesis unfolding eq
    by (rule round_fin_le_multiple) (use below_next_binade [OF assms] eq in simp)
qed

lemma round_fin_ge_binade:
  assumes "0 < x" and "- 1022 \<le> expo x"
  shows "2 powi (expo x) \<le> round_fin x"
proof -
  have b: "binade x = expo x" using assms by (simp add: binade_def)
  have eq: "(2::rat) powi (expo x) = of_int (2 ^ nat 52) * quantum x"
    using powi_split [of "expo x - 52" "expo x"] by (simp add: quantum_binade b)
  show ?thesis unfolding eq
    by (rule round_fin_ge_multiple) (use expo_bounds(1) [OF assms(1)] eq in simp)
qed

lemma round_fin_mono:
  assumes "0 \<le> x" and "x \<le> y"
  shows "round_fin x \<le> round_fin y"
proof (cases "x = 0")
  case True
  then show ?thesis using assms by (simp add: round_fin_0 round_fin_nonneg)
next
  case False
  then have x: "0 < x" and y: "0 < y" using assms by simp_all
  have e: "expo x \<le> expo y" using x assms(2) by (rule expo_mono)
  then have le: "binade x \<le> binade y" using x y by (simp add: binade_def)
  show ?thesis
  proof (cases "binade x = binade y")
    case True
    then have q: "quantum x = quantum y" by (simp add: quantum_binade)
    have "x / quantum y \<le> y / quantum y"
      using assms(2) quantum_pos [of y] by (simp add: divide_right_mono)
    then have "round_even (x / quantum y) \<le> round_even (y / quantum y)"
      by (rule round_even_mono)
    then have "(of_int (round_even (x / quantum y)) :: rat) \<le> of_int (round_even (y / quantum y))"
      by simp
    then show ?thesis unfolding round_fin_def q
      using quantum_pos [of y] by (intro mult_right_mono) simp_all
  next
    case False
    then have lt: "binade x < binade y" using le by simp
    then have ey: "binade y = expo y" "- 1022 \<le> expo y"
      using x y by (auto simp: binade_def max_def split: if_splits)
    have "round_fin x \<le> 2 powi (binade x + 1)" using x by (rule round_fin_le_next_binade)
    also have "\<dots> \<le> 2 powi (expo y)"
      using lt ey by (intro power_int_increasing) simp_all
    also have "\<dots> \<le> round_fin y" using y ey(2) by (rule round_fin_ge_binade)
    finally show ?thesis .
  qed
qed

lemma round_fin_multiple:
  assumes "x = of_int m * quantum x"
  shows "round_fin x = x"
proof -
  have "x / quantum x = of_int m"
    using quantum_pos [of x] by (subst assms) simp
  then show ?thesis unfolding round_fin_def using assms by (simp add: round_even_of_int)
qed



lemma round_fin_1: "round_fin 1 = 1"
proof -
  have "expo 1 = 0" by (intro expo_unique) simp_all
  then have q: "quantum 1 = 2 powi (- 52)" by (simp add: quantum_def binade_def)
  have "(1::rat) = of_int (2 ^ 52) * quantum 1" unfolding q by (simp add: power_int_minus)
  then show ?thesis by (rule round_fin_multiple)
qed


text \<open>Evaluating a rounding at a given rational.\<close>

lemma floor_rat_numeral: "\<lfloor>numeral a / numeral b :: rat\<rfloor> = numeral a div numeral b"
  using floor_divide_of_int_eq [of "numeral a" "numeral b", where ?'a = rat] by simp

lemma ceiling_rat_numeral: "\<lceil>numeral a / numeral b :: rat\<rceil> = - (- numeral a div numeral b)"
  using ceiling_divide_eq_div [of "numeral a" "numeral b"] by simp

lemmas round_eval = round64_def round_fin_def quantum_def binade_def expo_def round_even_def
  Let_def compute_floorlog floor_rat_numeral ceiling_rat_numeral

text \<open>Symmetry, and rounding to a double.\<close>

lemma round_even_neg: "round_even (- y) = - round_even y"
proof (cases "y = of_int \<lfloor>y\<rfloor>")
  case True
  then have "round_even (- y) = - \<lfloor>y\<rfloor>"
    by (metis of_int_minus round_even_of_int)
  moreover have "round_even y = \<lfloor>y\<rfloor>" by (metis True round_even_of_int)
  ultimately show ?thesis by simp
next
  case False
  have lo: "of_int \<lfloor>y\<rfloor> \<le> y" and hi: "y < of_int \<lfloor>y\<rfloor> + 1" by linarith+
  from lo False have lo': "of_int \<lfloor>y\<rfloor> < y" by (metis order_less_le)
  have f: "\<lfloor>- y\<rfloor> = - \<lfloor>y\<rfloor> - 1"
    using lo' hi by (intro floor_unique) simp_all
  show ?thesis unfolding round_even_def Let_def f
    using lo' hi by (auto simp: algebra_simps)
qed

lemma round_fin_neg: "round_fin (- x) = - round_fin x"
  by (simp add: round_fin_def quantum_def binade_def round_even_neg)

lemma round64_not_NaN: "round64 x \<noteq> NotANumber"
  by (simp add: round64_def Let_def)

lemma round64_bounded:
  assumes "0 \<le> x" and "x \<le> y" and "round64 y = Finite y"
  shows "\<exists>r. round64 x = Finite r \<and> 0 \<le> r \<and> r \<le> y \<and> r = round_fin x"
proof -
  have y: "round_fin y = y" "y < 2 ^ 1024"
    using assms(3) by (auto simp: round64_def Let_def split: if_splits)
  have "round_fin x \<le> round_fin y" using assms(1,2) by (rule round_fin_mono)
  then have le: "round_fin x \<le> y" using y by simp
  have ge: "0 \<le> round_fin x" using assms(1) by (rule round_fin_nonneg)
  have "round64 x = Finite (round_fin x)"
    using le ge y(2) by (simp add: round64_def Let_def)
  then show ?thesis using le ge by blast
qed



lemma round64_1: "round64 1 = Finite 1"
  by (simp add: round64_def round_fin_1)

lemma round_fin_top: "round_fin (2 ^ 1024) = 2 ^ 1024"
proof -
  define M :: rat where "M = 2 powi 1024"
  have pos: "0 < M" by (simp add: M_def)
  have "expo M = 1024"
  proof (rule expo_unique)
    show "0 < M" by (rule pos)
    show "2 powi 1024 \<le> M" by (simp only: M_def order_refl)
    show "M < 2 powi (1024 + 1)"
      unfolding M_def by (rule power_int_strict_increasing) simp_all
  qed
  then have q: "quantum M = 2 powi (1024 - 52)"
    using pos by (simp add: quantum_def binade_def)
  have "M = 2 powi 1024" by (rule M_def)
  also have "\<dots> = of_int (2 ^ nat (1024 - (1024 - 52))) * 2 powi (1024 - 52)"
    by (rule powi_split) simp
  also have "\<dots> = of_int (2 ^ nat (1024 - (1024 - 52))) * quantum M"
    by (simp only: q)
  finally have "round_fin M = M" by (rule round_fin_multiple)
  moreover have "M = 2 ^ 1024" by (simp add: M_def)
  ultimately show ?thesis by simp
qed

lemma round64_overflow:
  assumes "2 ^ 1024 \<le> x"
  shows "round64 x = Infinity"
proof -
  have "round_fin (2 ^ 1024) \<le> round_fin x"
    using assms by (intro round_fin_mono) simp_all
  then have "2 ^ 1024 \<le> round_fin x" by (simp only: round_fin_top)
  then show ?thesis by (simp add: round64_def Let_def)
qed

text \<open>Three fields of the result of \<open>compute64\<close>, in terms of the operations.\<close>

lemma compute64_orderToBeShipped:
  "orderToBeShipped (compute64 inputs) =
     fl_max (Finite 0) (fl_sub (totalOrders inputs) (cancelledOverCall inputs))"
  by (simp add: compute64_def Let_def)

lemma compute64_rtoCount:
  "rtoCount (compute64 inputs) =
     fl_mul (orderToBeShipped (compute64 inputs)) (fl_div (rtoPercentage inputs) (Finite 100))"
  by (simp add: compute64_def Let_def)

lemma compute64_deliveredOrders:
  "deliveredOrders (compute64 inputs) =
     fl_max (Finite 0)
       (fl_sub (orderToBeShipped (compute64 inputs)) (rtoCount (compute64 inputs)))"
  by (simp add: compute64_def Let_def)

lemma fl_max_0_nonneg: "x \<noteq> NotANumber \<Longrightarrow> fl_le (Finite 0) (fl_max (Finite 0) x)"
  by (cases x) simp_all


lemma round64_neg: "round64 (- x) = fl_neg (round64 x)"
  by (simp add: round64_def Let_def round_fin_neg)

lemma finite_doubleE:
  assumes "finite_double d"
  obtains x where "d = Finite x" and "round64 x = Finite x"
  using assms by (cases d) simp_all

lemma round64_div_100:
  assumes "round64 p = Finite p"
  shows "\<exists>q. round64 (p / 100) = Finite q"
proof (cases "0 \<le> p")
  case True
  then have "0 \<le> p / 100" "p / 100 \<le> p" by simp_all
  from round64_bounded [OF this assms] show ?thesis by blast
next
  case False
  then have "0 \<le> - p / 100" "- p / 100 \<le> - p" by simp_all
  moreover have "round64 (- p) = Finite (- p)" using assms by (simp add: round64_neg)
  ultimately obtain r where "round64 (- p / 100) = Finite r"
    using round64_bounded by blast
  then have "round64 (- (- p / 100)) = Finite (- r)" by (simp only: round64_neg fl_neg.simps)
  then show ?thesis by auto
qed

lemma fl_sub_finite_not_NaN: "fl_sub (Finite s) (round64 z) \<noteq> NotANumber"
  by (cases "round64 z") (simp_all add: fl_sub_def round64_not_NaN)


lemma round_fin_powi:
  assumes "- 1022 \<le> e"
  shows "round_fin (2 powi e) = 2 powi e"
proof -
  define M :: rat where "M = 2 powi e"
  have pos: "0 < M" by (simp add: M_def)
  have "expo M = e"
  proof (rule expo_unique)
    show "0 < M" by (rule pos)
    show "2 powi e \<le> M" by (simp only: M_def order_refl)
    show "M < 2 powi (e + 1)"
      unfolding M_def by (rule power_int_strict_increasing) simp_all
  qed
  then have q: "quantum M = 2 powi (e - 52)"
    using pos assms by (simp add: quantum_def binade_def)
  have "M = 2 powi e" by (rule M_def)
  also have "\<dots> = of_int (2 ^ nat (e - (e - 52))) * 2 powi (e - 52)"
    by (rule powi_split) simp
  also have "\<dots> = of_int (2 ^ nat (e - (e - 52))) * quantum M"
    by (simp only: q)
  finally have "round_fin M = M" by (rule round_fin_multiple)
  then show ?thesis by (simp only: M_def)
qed

lemma round64_2_1023: "round64 (2 ^ 1023) = Finite (2 ^ 1023)"
proof -
  have "round_fin (2 powi 1023) = 2 powi 1023" by (rule round_fin_powi) simp
  then have "round_fin (2 ^ 1023) = 2 ^ 1023" by simp
  then show ?thesis by (simp add: round64_def)
qed

section \<open>The calculator: scenarios\<close>

text \<open>
  C1. For the default inputs the calculator returns orderToBeShipped = 10, rtoCount = 1,
  deliveredOrders = 9, totalRevenue = 5400, totalProductCost = 900, totalAdCost = 1180,
  totalShippingCost = 500, totalRtoShipping = 72, totalDamageLoss = 0,
  totalPackingCost = 100, totalMiscellaneous = 5, totalExpenses = 2757,
  netProfit = 2643 and profitMargin = 2643 / 5400 * 100, which lies between 48.94 and
  48.95.
\<close>

theorem compute_defaults:
  "compute \<lparr> totalOrders = 10, cancelledOverCall = 0, rtoPercentage = 10,
       sellingPrice = 600, productCost = 100, adCostPerOrder = 100,
       adGstPercentage = 18, shippingCost = 50, rtoShippingCost = 72,
       productDamageRtoPercentage = 0, packingCost = 10, miscellaneous = 5 \<rparr>
   = \<lparr> orderToBeShipped = 10, rtoCount = 1, deliveredOrders = 9, totalRevenue = 5400,
       totalProductCost = 900, totalAdCost = 1180, totalShippingCost = 500,
       totalRtoShipping = 72, totalDamageLoss = 0, totalPackingCost = 100,
       totalMiscellaneous = 5, totalExpenses = 2757, netProfit = 2643,
       profitMargin = 2643 / 5400 * 100 \<rparr>
   \<and> (4894 / 100 :: rat) < 2643 / 5400 * 100 \<and> (2643 / 5400 * 100 :: rat) < 4895 / 100"
  by (simp add: compute_def Let_def)

text \<open>
  C8. With cancelledOverCall = 15 and totalOrders = 10, the other fields at their
  defaults, orderToBeShipped is 0 (clamped, not -5) and rtoCount, deliveredOrders,
  totalRevenue, totalProductCost, totalShippingCost, totalRtoShipping, totalDamageLoss
  and totalPackingCost are all 0. (The advertising cost, charged on totalOrders, and
  the flat miscellaneous amount remain.)
\<close>

theorem compute_over_cancellation:
  "compute \<lparr> totalOrders = 10, cancelledOverCall = 15, rtoPercentage = 10,
       sellingPrice = 600, productCost = 100, adCostPerOrder = 100,
       adGstPercentage = 18, shippingCost = 50, rtoShippingCost = 72,
       productDamageRtoPercentage = 0, packingCost = 10, miscellaneous = 5 \<rparr>
   = \<lparr> orderToBeShipped = 0, rtoCount = 0, deliveredOrders = 0, totalRevenue = 0,
       totalProductCost = 0, totalAdCost = 1180, totalShippingCost = 0,
       totalRtoShipping = 0, totalDamageLoss = 0, totalPackingCost = 0,
       totalMiscellaneous = 5, totalExpenses = 1185, netProfit = - 1185,
       profitMargin = 0 \<rparr>"
  by (simp add: compute_def Let_def)

section \<open>The calculator: general properties\<close>

text \<open>
  C2. For every inputs record, profitMargin is (netProfit / totalRevenue) * 100 when
  totalRevenue is positive and 0 otherwise; in particular it is exactly 0 when
  totalRevenue is 0, and whenever the denominator would not be positive the result is
  the constant 0 and not a quotient.
\<close>

theorem compute_profitMargin:
  "profitMargin (compute inputs) =
     (if totalRevenue (compute inputs) > 0
      then (netProfit (compute inputs) / totalRevenue (compute inputs)) * 100 else 0)
   \<and> (totalRevenue (compute inputs) = 0 \<longrightarrow> profitMargin (compute inputs) = 0)
   \<and> (\<not> totalRevenue (compute inputs) > 0 \<longrightarrow> profitMargin (compute inputs) = 0)"
  by (simp add: compute_def Let_def)

text \<open>
  The hypotheses hold with no orders at all, where the revenue is 0 and the expenses
  are not.
\<close>

theorem compute_profitMargin_witness:
  "totalRevenue (compute \<lparr> totalOrders = 0, cancelledOverCall = 0, rtoPercentage = 10,
       sellingPrice = 600, productCost = 100, adCostPerOrder = 100,
       adGstPercentage = 18, shippingCost = 50, rtoShippingCost = 72,
       productDamageRtoPercentage = 0, packingCost = 10, miscellaneous = 5 \<rparr>) = 0
   \<and> netProfit (compute \<lparr> totalOrders = 0, cancelledOverCall = 0, rtoPercentage = 10,
       sellingPrice = 600, productCost = 100, adCostPerOrder = 100,
       adGstPercentage = 18, shippingCost = 50, rtoShippingCost = 72,
       productDamageRtoPercentage = 0, packingCost = 10, miscellaneous = 5 \<rparr>) = - 5
   \<and> profitMargin (compute \<lparr> totalOrders = 0, cancelledOverCall = 0, rtoPercentage = 10,
       sellingPrice = 600, productCost = 100, adCostPerOrder = 100,
       adGstPercentage = 18, shippingCost = 50, rtoShippingCost = 72,
       productDamageRtoPercentage = 0, packingCost = 10, miscellaneous = 5 \<rparr>) = 0"
  using compute_profitMargin [of "\<lparr> totalOrders = 0, cancelledOverCall = 0,
       rtoPercentage = 10, sellingPrice = 600, productCost = 100, adCostPerOrder = 100,
       adGstPercentage = 18, shippingCost = 50, rtoShippingCost = 72,
       productDamageRtoPercentage = 0, packingCost = 10, miscellaneous = 5 \<rparr>"]
  by (simp add: compute_def Let_def)

text \<open>
  C4. For every inputs record, totalExpenses is the sum of the seven expense components
  of the same result, and of nothing else.
\<close>

theorem compute_totalExpenses:
  "totalExpenses (compute inputs) =
     totalProductCost (compute inputs) + totalAdCost (compute inputs) +
     totalShippingCost (compute inputs) + totalRtoShipping (compute inputs) +
     totalDamageLoss (compute inputs) + totalPackingCost (compute inputs) +
     totalMiscellaneous (compute inputs)"
  by (simp add: compute_def Let_def)

section \<open>The distribution\<close>

text \<open>
  C5. For every results record, every entry of the distribution has a positive value;
  the entries are the positive ones of the seven components Product, Ads, Forward
  Shipping, RTO Shipping, Packing, RTO Loss, Misc, each with its expense component, in
  that order; and when no component is positive the distribution is the empty list.
\<close>

theorem distribute_positive_in_order:
  "(\<forall>d \<in> set (distribute results). value' d > 0)
   \<and> map (\<lambda>d. (name d, value' d)) (distribute results) =
       filter (\<lambda>(n, v). v > 0)
         [(''Product'', totalProductCost results), (''Ads'', totalAdCost results),
          (''Forward Shipping'', totalShippingCost results),
          (''RTO Shipping'', totalRtoShipping results),
          (''Packing'', totalPackingCost results), (''RTO Loss'', totalDamageLoss results),
          (''Misc'', totalMiscellaneous results)]
   \<and> (totalProductCost results \<le> 0 \<and> totalAdCost results \<le> 0
        \<and> totalShippingCost results \<le> 0 \<and> totalRtoShipping results \<le> 0
        \<and> totalPackingCost results \<le> 0 \<and> totalDamageLoss results \<le> 0
        \<and> totalMiscellaneous results \<le> 0 \<longrightarrow> distribute results = [])"
proof (intro conjI)
  have items: "map (\<lambda>d. (name d, value' d)) (distribute results) =
    map (\<lambda>x. (name x, value' x)) (filter (\<lambda>item. value' item > 0) (data results))"
    unfolding distribute_def by (rule map_enumerate_proj) simp
  show "\<forall>d \<in> set (distribute results). value' d > 0"
  proof
    fix d assume "d \<in> set (distribute results)"
    then have "(name d, value' d) \<in> set (map (\<lambda>d. (name d, value' d)) (distribute results))"
      by (simp add: image_iff) blast
    then show "value' d > 0" unfolding items by auto
  qed
  show "map (\<lambda>d. (name d, value' d)) (distribute results) =
       filter (\<lambda>(n, v). v > 0)
         [(''Product'', totalProductCost results), (''Ads'', totalAdCost results),
          (''Forward Shipping'', totalShippingCost results),
          (''RTO Shipping'', totalRtoShipping results),
          (''Packing'', totalPackingCost results), (''RTO Loss'', totalDamageLoss results),
          (''Misc'', totalMiscellaneous results)]"
    unfolding items by (simp add: data_def)
  show "totalProductCost results \<le> 0 \<and> totalAdCost results \<le> 0
        \<and> totalShippingCost results \<le> 0 \<and> totalRtoShipping results \<le> 0
        \<and> totalPackingCost results \<le> 0 \<and> totalDamageLoss results \<le> 0
        \<and> totalMiscellaneous results \<le> 0 \<longrightarrow> distribute results = []"
    by (simp add: distribute_def data_def)
qed

text \<open>
  At the results of the default inputs the damage loss is 0 and drops out, the other
  six entries stay in order; at a results record of zeros the distribution is empty.
\<close>

theorem distribute_positive_in_order_witness:
  "map (\<lambda>d. (name d, value' d))
     (distribute \<lparr> orderToBeShipped = 10, rtoCount = 1, deliveredOrders = 9,
       totalRevenue = 5400, totalProductCost = 900, totalAdCost = 1180,
       totalShippingCost = 500, totalRtoShipping = 72, totalDamageLoss = 0,
       totalPackingCost = 100, totalMiscellaneous = 5, totalExpenses = 2757,
       netProfit = 2643, profitMargin = 2643 / 5400 * 100 \<rparr>)
     = [(''Product'', 900), (''Ads'', 1180), (''Forward Shipping'', 500),
        (''RTO Shipping'', 72), (''Packing'', 100), (''Misc'', 5)]
   \<and> distribute \<lparr> orderToBeShipped = 0, rtoCount = 0, deliveredOrders = 0,
       totalRevenue = 0, totalProductCost = 0, totalAdCost = 0,
       totalShippingCost = 0, totalRtoShipping = 0, totalDamageLoss = 0,
       totalPackingCost = 0, totalMiscellaneous = 0, totalExpenses = 0,
       netProfit = 0, profitMargin = 0 \<rparr> = []"
  using
    distribute_positive_in_order [of "\<lparr> orderToBeShipped = 10, rtoCount = 1,
       deliveredOrders = 9, totalRevenue = 5400, totalProductCost = 900,
       totalAdCost = 1180, totalShippingCost = 500, totalRtoShipping = 72,
       totalDamageLoss = 0, totalPackingCost = 100, totalMiscellaneous = 5,
       totalExpenses = 2757, netProfit = 2643, profitMargin = 2643 / 5400 * 100 \<rparr>"]
    distribute_positive_in_order [of "\<lparr> orderToBeShipped = 0, rtoCount = 0,
       deliveredOrders = 0, totalRevenue = 0, totalProductCost = 0, totalAdCost = 0,
       totalShippingCost = 0, totalRtoShipping = 0, totalDamageLoss = 0,
       totalPackingCost = 0, totalMiscellaneous = 0, totalExpenses = 0,
       netProfit = 0, profitMargin = 0 \<rparr>"]
  by simp



text \<open>
  C7. For every results record, the entry at position i (from 0) of the distribution
  has the color COLORS[i mod 7], where i is its position among the entries that passed
  the filter, not among the seven components.
\<close>

theorem distribute_color:
  assumes "i < length (distribute results)"
  shows "color (distribute results ! i) = COLORS ! (i mod 7)
     \<and> name (distribute results ! i)
         = name (filter (\<lambda>item. value' item > 0) (data results) ! i)
     \<and> value' (distribute results ! i)
         = value' (filter (\<lambda>item. value' item > 0) (data results) ! i)"
proof -
  have "length COLORS = 7" by (simp add: COLORS_def)
  then show ?thesis using assms unfolding distribute_def by (simp add: nth_enumerate_eq)
qed

text \<open>
  At the results of the default inputs, Misc is the seventh component and the sixth
  entry: it gets the sixth color of the palette.
\<close>

theorem distribute_color_witness:
  "5 < length (distribute \<lparr> orderToBeShipped = 10, rtoCount = 1, deliveredOrders = 9,
       totalRevenue = 5400, totalProductCost = 900, totalAdCost = 1180,
       totalShippingCost = 500, totalRtoShipping = 72, totalDamageLoss = 0,
       totalPackingCost = 100, totalMiscellaneous = 5, totalExpenses = 2757,
       netProfit = 2643, profitMargin = 2643 / 5400 * 100 \<rparr>)
   \<and> name (distribute \<lparr> orderToBeShipped = 10, rtoCount = 1, deliveredOrders = 9,
       totalRevenue = 5400, totalProductCost = 900, totalAdCost = 1180,
       totalShippingCost = 500, totalRtoShipping = 72, totalDamageLoss = 0,
       totalPackingCost = 100, totalMiscellaneous = 5, totalExpenses = 2757,
       netProfit = 2643, profitMargin = 2643 / 5400 * 100 \<rparr> ! 5) = ''Misc''
   \<and> color (distribute \<lparr> orderToBeShipped = 10, rtoCount = 1, deliveredOrders = 9,
       totalRevenue = 5400, totalProductCost = 900, totalAdCost = 1180,
       totalShippingCost = 500, totalRtoShipping = 72, totalDamageLoss = 0,
       totalPackingCost = 100, totalMiscellaneous = 5, totalExpenses = 2757,
       netProfit = 2643, profitMargin = 2643 / 5400 * 100 \<rparr> ! 5) = ''#8B5CF6''"
proof -
  let ?r = "\<lparr> orderToBeShipped = 10, rtoCount = 1, deliveredOrders = 9,
       totalRevenue = 5400, totalProductCost = 900, totalAdCost = 1180,
       totalShippingCost = 500, totalRtoShipping = 72, totalDamageLoss = 0,
       totalPackingCost = 100, totalMiscellaneous = 5, totalExpenses = 2757,
       netProfit = 2643, profitMargin = 2643 / 5400 * 100 :: rat \<rparr>"
  have len: "5 < length (distribute ?r)"
    by (simp add: distribute_def data_def)
  from distribute_color [OF len] show ?thesis
    by (simp add: distribute_def data_def COLORS_def)
qed

section \<open>The input form\<close>

text \<open>
  C9. For every field and every text that \<^verbatim>\<open>parseFloat\<close> turns into \<open>NaN\<close>, the
  handler stores 0 in that field; and after any sequence of events of the form, from
  the initial state, no field of the inputs record is \<open>NaN\<close>.
\<close>

theorem handleInputChange_unparseable:
  "(parseFloat text = NaN \<longrightarrow>
      get_field field (handleInputChange parseFloat field (Str text) prev) = Fin 0)
   \<and> (\<forall>f. get_field f (run parseFloat events) \<noteq> NaN)"
proof
  show "parseFloat text = NaN \<longrightarrow>
      get_field field (handleInputChange parseFloat field (Str text) prev) = Fin 0"
    by (simp add: handleInputChange_def get_set_field or_zero_def del: set_field.simps)
  show "\<forall>f. get_field f (run parseFloat events) \<noteq> NaN"
    using foldl_step_not_NaN [OF defaultInputs_not_NaN, of parseFloat events]
    by (simp add: run_def)
qed

text \<open>
  With a stand-in for \<^verbatim>\<open>parseFloat\<close> that reads one text and rejects the others:
  the text \<open>abc\<close> in the box of the selling price stores 0 there.
\<close>

theorem handleInputChange_unparseable_witness:
  "(\<lambda>s. if s = ''12.5'' then Fin (25 / 2) else NaN) ''abc'' = NaN
   \<and> get_field SellingPrice
       (handleInputChange (\<lambda>s. if s = ''12.5'' then Fin (25 / 2) else NaN)
          SellingPrice (Str ''abc'') defaultInputs) = Fin 0
   \<and> sellingPrice
       (run (\<lambda>s. if s = ''12.5'' then Fin (25 / 2) else NaN)
          [Minus, Change SellingPrice ''abc'', Plus, Plus]) \<noteq> NaN"
  using handleInputChange_unparseable
    [of "\<lambda>s. if s = ''12.5'' then Fin (25 / 2) else NaN" "''abc''" SellingPrice
        defaultInputs "[Minus, Change SellingPrice ''abc'', Plus, Plus]"]
  by (simp add: handleInputChange_def or_zero_def defaultInputs_def run_def)

section \<open>The calculator in double arithmetic: the funnel\<close>

text \<open>
  C3, as stated: for every inputs record, whatever the sign or size of its fields,
  orderToBeShipped and deliveredOrders are not negative. In double arithmetic this
  fails: with totalOrders \<open>2 ^ 1023\<close> (about 8.99e307), cancelledOverCall
  \<open>- (2 ^ 1023)\<close> and rtoPercentage 100, all three finite doubles, the difference
  overflows to \<open>Infinity\<close>, so does rtoCount, and deliveredOrders is
  \<^verbatim>\<open>Math.max(0, Infinity - Infinity)\<close>, which is \<open>NaN\<close> and not \<^verbatim>\<open>>= 0\<close>.
\<close>

theorem compute64_counts_counterexample:
  "finite_double (Finite (2 ^ 1023)) \<and> finite_double (Finite (- (2 ^ 1023)))
   \<and> finite_double (Finite 100)
   \<and> deliveredOrders (compute64 \<lparr> totalOrders = Finite (2 ^ 1023),
       cancelledOverCall = Finite (- (2 ^ 1023)), rtoPercentage = Finite 100,
       sellingPrice = Finite 600, productCost = Finite 100, adCostPerOrder = Finite 100,
       adGstPercentage = Finite 18, shippingCost = Finite 50, rtoShippingCost = Finite 72,
       productDamageRtoPercentage = Finite 0, packingCost = Finite 10,
       miscellaneous = Finite 5 \<rparr>) = NotANumber
   \<and> \<not> fl_le (Finite 0) (deliveredOrders (compute64 \<lparr> totalOrders = Finite (2 ^ 1023),
       cancelledOverCall = Finite (- (2 ^ 1023)), rtoPercentage = Finite 100,
       sellingPrice = Finite 600, productCost = Finite 100, adCostPerOrder = Finite 100,
       adGstPercentage = Finite 18, shippingCost = Finite 50, rtoShippingCost = Finite 72,
       productDamageRtoPercentage = Finite 0, packingCost = Finite 10,
       miscellaneous = Finite 5 \<rparr>))"
proof -
  let ?i = "\<lparr> totalOrders = Finite (2 ^ 1023),
       cancelledOverCall = Finite (- (2 ^ 1023)), rtoPercentage = Finite 100,
       sellingPrice = Finite 600, productCost = Finite 100, adCostPerOrder = Finite 100,
       adGstPercentage = Finite 18, shippingCost = Finite 50, rtoShippingCost = Finite 72,
       productDamageRtoPercentage = Finite 0, packingCost = Finite 10,
       miscellaneous = Finite 5 \<rparr>"
  have f1: "finite_double (Finite (2 ^ 1023))"
    by (simp only: finite_double.simps round64_2_1023)
  have f2: "finite_double (Finite (- (2 ^ 1023)))"
    by (simp only: finite_double.simps round64_neg round64_2_1023 fl_neg.simps)
  have f3: "finite_double (Finite 100)" by (simp add: round_eval)
  have shipped: "orderToBeShipped (compute64 ?i) = Infinity"
    by (simp add: compute64_orderToBeShipped fl_sub_def round64_overflow)
  have returned: "rtoCount (compute64 ?i) = Infinity"
    by (simp only: compute64_rtoCount shipped) (simp add: round64_1)
  have delivered: "deliveredOrders (compute64 ?i) = NotANumber"
    by (simp only: compute64_deliveredOrders shipped returned) (simp add: fl_sub_def)
  have "\<not> fl_le (Finite 0) (deliveredOrders (compute64 ?i))"
    by (simp only: delivered fl_le.simps not_False_eq_True)
  with f1 f2 f3 delivered show ?thesis by (intro conjI)
qed

text \<open>
  C3, amended: for every inputs record whose totalOrders, cancelledOverCall and
  rtoPercentage are finite doubles, of any sign and size, orderToBeShipped is not
  negative (it may be \<open>Infinity\<close>); and deliveredOrders is not negative unless
  totalOrders - cancelledOverCall overflows, that is, unless orderToBeShipped is
  \<open>Infinity\<close>.
\<close>

theorem compute64_counts_nonneg:
  assumes "finite_double (totalOrders inputs)" and "finite_double (cancelledOverCall inputs)"
    and "finite_double (rtoPercentage inputs)"
  shows "fl_le (Finite 0) (orderToBeShipped (compute64 inputs))
     \<and> (orderToBeShipped (compute64 inputs) \<noteq> Infinity
          \<longrightarrow> fl_le (Finite 0) (deliveredOrders (compute64 inputs)))"
proof -
  from assms(1) obtain t where t: "totalOrders inputs = Finite t" by (rule finite_doubleE)
  from assms(2) obtain c where c: "cancelledOverCall inputs = Finite c" by (rule finite_doubleE)
  from assms(3) obtain p where p: "rtoPercentage inputs = Finite p" "round64 p = Finite p"
    by (rule finite_doubleE)
  define shipped where "shipped = orderToBeShipped (compute64 inputs)"
  have shipped: "shipped = fl_max (Finite 0) (round64 (t - c))"
    by (simp add: shipped_def compute64_orderToBeShipped t c fl_sub_def)
  have nonneg: "fl_le (Finite 0) shipped"
    unfolding shipped by (rule fl_max_0_nonneg) (rule round64_not_NaN)
  have "fl_le (Finite 0) (deliveredOrders (compute64 inputs))" if "shipped \<noteq> Infinity"
  proof -
    from nonneg that obtain s where s: "shipped = Finite s" by (cases shipped) simp_all
    from round64_div_100 [OF p(2)] obtain q where q: "round64 (p / 100) = Finite q" ..
    have r: "rtoCount (compute64 inputs) = round64 (s * q)"
      by (simp add: compute64_rtoCount shipped_def [symmetric] s p q)
    have "deliveredOrders (compute64 inputs) = fl_max (Finite 0) (fl_sub (Finite s) (round64 (s * q)))"
      by (simp add: compute64_deliveredOrders shipped_def [symmetric] s r)
    then show ?thesis by (simp add: fl_max_0_nonneg fl_sub_finite_not_NaN)
  qed
  then show ?thesis using nonneg unfolding shipped_def by blast
qed

text \<open>
  With ten orders, two cancelled and a return rate of 250 per cent, the hypotheses
  hold, eight orders are shipped and the clamp keeps deliveredOrders from being
  negative.
\<close>

theorem compute64_counts_nonneg_witness:
  "finite_double (Finite 10) \<and> finite_double (Finite 2) \<and> finite_double (Finite 250)
   \<and> orderToBeShipped (compute64 \<lparr> totalOrders = Finite 10,
         cancelledOverCall = Finite 2, rtoPercentage = Finite 250, sellingPrice = Finite 600,
         productCost = Finite 100, adCostPerOrder = Finite 100,
         adGstPercentage = Finite 18, shippingCost = Finite 50,
         rtoShippingCost = Finite 72, productDamageRtoPercentage = Finite 0,
         packingCost = Finite 10, miscellaneous = Finite 5 \<rparr>) = Finite 8
   \<and> fl_le (Finite 0) (deliveredOrders (compute64 \<lparr> totalOrders = Finite 10,
         cancelledOverCall = Finite 2, rtoPercentage = Finite 250, sellingPrice = Finite 600,
         productCost = Finite 100, adCostPerOrder = Finite 100,
         adGstPercentage = Finite 18, shippingCost = Finite 50,
         rtoShippingCost = Finite 72, productDamageRtoPercentage = Finite 0,
         packingCost = Finite 10, miscellaneous = Finite 5 \<rparr>))"
proof -
  let ?i = "\<lparr> totalOrders = Finite 10,
         cancelledOverCall = Finite 2, rtoPercentage = Finite 250, sellingPrice = Finite 600,
         productCost = Finite 100, adCostPerOrder = Finite 100,
         adGstPercentage = Finite 18, shippingCost = Finite 50,
         rtoShippingCost = Finite 72, productDamageRtoPercentage = Finite 0,
         packingCost = Finite 10, miscellaneous = Finite 5 \<rparr>"
  have f1: "finite_double (Finite 10)" by (simp add: round_eval)
  have f2: "finite_double (Finite 2)" by (simp add: round_eval)
  have f3: "finite_double (Finite 250)" by (simp add: round_eval)
  have shipped: "orderToBeShipped (compute64 ?i) = Finite 8"
    by (simp add: compute64_orderToBeShipped fl_sub_def round_eval)
  have "fl_le (Finite 0) (deliveredOrders (compute64 ?i))"
    using compute64_counts_nonneg [of ?i] f1 f2 f3 shipped by simp
  with f1 f2 f3 shipped show ?thesis by (intro conjI)
qed




end
